theory Spec2Isabelle
  imports Complex_Main
begin

section \<open>Numbers and errors\<close>

text \<open>
  The palette generator is pure numeric TypeScript. A JavaScript \<open>number\<close> is modelled
  as a \<^typ>\<open>real\<close>: \<open>Math.exp\<close> is \<^const>\<open>exp\<close>, \<open>Math.sqrt\<close> is \<^const>\<open>sqrt\<close>,
  \<open>Math.cbrt\<close> is \<^term>\<open>root 3\<close>, \<open>Math.max\<close> and \<open>Math.min\<close> are \<^const>\<open>max\<close> and
  \<^const>\<open>min\<close>. \<open>NaN\<close> and the infinities are outside this model.

  The rounding of IEEE 754 binary64 arithmetic is written out where a statement depends
  on it, which is the case for the exact equalities about \<open>computeChroma\<close>: there every
  arithmetic operation is followed by \<open>fl\<close>, rounding to the nearest binary64 number with
  ties to even. The other functions are stated in exact arithmetic.

  A \<open>throw new Error(msg)\<close> is a value \<open>Inl e\<close> of the sum type \<open>error + 'a\<close>,
  one constructor per message of the source. The \<open>console.log\<close> calls of
  \<open>reverseWCAGContrast\<close> do not influence any result and are left out.
\<close>

datatype error =
    StepNotNormalized      \<comment> \<open>"step must produce a normalized value between 0 and 1"\<close>
  | BaseHueOutOfRange      \<comment> \<open>"baseHue must be a number between 0 and 360"\<close>
  | ChromaOutOfRange       \<comment> \<open>"Chroma values must be numbers between 0 and 1"\<close>
  | ChromaNotOrdered       \<comment> \<open>"minChroma must be less than or equal to maxChroma"\<close>
  | StepsNotValid          \<comment> \<open>"All steps must be integers between 0 and 1000"\<close>
  | TargetLuminanceProblem real
                           \<comment> \<open>"Problem calculating the target luminance for step ..."\<close>

text \<open>\<open>Number.isInteger\<close> on a finite number.\<close>

definition isInteger :: "real \<Rightarrow> bool" where
  "isInteger x = (of_int \<lfloor>x\<rfloor> = x)"

text \<open>
  Binary64 rounding. \<open>rne\<close> rounds a real to the nearest integer, ties to the even
  one. A binary64 number near \<open>x\<close> is an integer multiple of \<open>2 powi ulpExp x\<close>: the
  significand has 53 bits, and below \<open>2 powi (- 1022)\<close> (the subnormal numbers) the spacing
  stays \<open>2 powi (- 1074)\<close>. \<open>fl x\<close> is the binary64 number nearest to \<open>x\<close>. Overflow
  is not modelled: \<open>fl\<close> is only applied to values far below \<open>2 powi 1024\<close>.
\<close>

definition rne :: "real \<Rightarrow> int" where
  "rne x =
     (let f = \<lfloor>x\<rfloor>;
          r = x - of_int f
      in if r < 1 / 2 then f
         else if 1 / 2 < r then f + 1
         else if even f then f else f + 1)"

definition ulpExp :: "real \<Rightarrow> int" where
  "ulpExp x = max (\<lfloor>log 2 \<bar>x\<bar>\<rfloor> - 52) (- 1074)"

definition fl :: "real \<Rightarrow> real" where
  "fl x = (if x = 0 then 0 else of_int (rne (x / 2 powi ulpExp x)) * 2 powi ulpExp x)"


section \<open>utils/reverseWcagContrast.ts\<close>

definition scaleToContrast :: "real \<Rightarrow> real" where
  "scaleToContrast scaleValue =
     (let normalizedValue = scaleValue / 1000
      in exp (3.04 * normalizedValue))"

text \<open>
  The result type \<open>number | false\<close> is \<^typ>\<open>real option\<close>, \<open>false\<close> being
  \<^const>\<open>None\<close>. Both parameters have defaults in the source (\<open>contrast = 4.5\<close>,
  \<open>y = 1\<close>); the model takes both explicitly and a caller that omits one passes the
  default.
\<close>

definition reverseWCAGContrast :: "real \<Rightarrow> real \<Rightarrow> real option" where
  "reverseWCAGContrast contrast y =
     (if \<not> (y \<ge> 0 \<and> y \<le> 1) then None
      else if \<not> (contrast \<ge> 1 \<and> contrast \<le> 21) then None
      else
        let output = (if y > 0.18 then (y + 0.05) / contrast - 0.05
                      else contrast * (y + 0.05) - 0.05)
        in Some (max 0 (min 1 output)))"


section \<open>utils/colorConversions.ts\<close>

definition toe :: "real \<Rightarrow> real" where
  "toe L =
     (let k_1 = 0.206;
          k_2 = 0.03;
          k_3 = (1 + k_1) / (1 + k_2);
          k3L_m_k1 = k_3 * L - k_1
      in 0.5 * (k3L_m_k1 + sqrt (k3L_m_k1 * k3L_m_k1 + 4 * k_2 * k_3 * L)))"

definition M1 :: "real list list" where
  "M1 = [[0.8189330101, 0.3618667424, - 0.1288597137],
         [0.0329845436, 0.9293118715, 0.0361456387],
         [0.0482003018, 0.2643662691, 0.633851707]]"

definition M2 :: "real list list" where
  "M2 = [[0.2104542553, 0.793617785, - 0.0040720468],
         [1.9779984951, - 2.428592205, 0.4505937099],
         [0.0259040371, 0.7827717662, - 0.808675766]]"

definition yToOklabLightness :: "real \<Rightarrow> real" where
  "yToOklabLightness inputY =
     (let x = 0.3127;
          y = 0.329;
          X_factor = x / y;
          Z_factor = (1 - x - y) / y;
          X = X_factor * inputY;
          Y = inputY;
          Z = Z_factor * inputY;
          l = M1 ! 0 ! 0 * X + M1 ! 0 ! 1 * Y + M1 ! 0 ! 2 * Z;
          m = M1 ! 1 ! 0 * X + M1 ! 1 ! 1 * Y + M1 ! 1 ! 2 * Z;
          s = M1 ! 2 ! 0 * X + M1 ! 2 ! 1 * Y + M1 ! 2 ! 2 * Z;
          l = max 0 l;
          m = max 0 m;
          s = max 0 s;
          l_prime = root 3 l;
          m_prime = root 3 m;
          s_prime = root 3 s;
          L = M2 ! 0 ! 0 * l_prime + M2 ! 0 ! 1 * m_prime + M2 ! 0 ! 2 * s_prime
      in L)"

definition yToOkhslLightness :: "real \<Rightarrow> real" where
  "yToOkhslLightness inputY = toe (yToOklabLightness inputY)"


section \<open>generateColorScale.ts\<close>

definition computeHue :: "real \<Rightarrow> real \<Rightarrow> bool \<Rightarrow> error + real" where
  "computeHue step baseHue enableBezoldBruckeShift =
     (let normalizedStep = step / 1000
      in if normalizedStep < 0 \<or> normalizedStep > 1 then Inl StepNotNormalized
         else if baseHue < 0 \<or> baseHue > 360 then Inl BaseHueOutOfRange
         else if baseHue = 0 \<or> \<not> enableBezoldBruckeShift then Inr baseHue
         else Inr (baseHue + 5 * (1 - normalizedStep)))"

text \<open>
  \<open>computeChroma\<close> in binary64: each operation of the source expression rounds its
  exact result, in the order JavaScript evaluates it,
  \<open>((-4 * d) * pow(t, 2) + (4 * d) * t) + minChroma\<close>. \<open>Math.pow(t, 2)\<close> is the rounded
  square \<open>t * t\<close>. The comparisons are exact.
\<close>

definition computeChroma :: "real \<Rightarrow> real \<Rightarrow> real \<Rightarrow> error + real" where
  "computeChroma step minChroma maxChroma =
     (let normalizedStep = fl (step / 1000)
      in if normalizedStep < 0 \<or> normalizedStep > 1 then Inl StepNotNormalized
         else if minChroma < 0 \<or> minChroma > 1 \<or> maxChroma < 0 \<or> maxChroma > 1
           then Inl ChromaOutOfRange
         else if minChroma > maxChroma then Inl ChromaNotOrdered
         else
           let chromaDifference = fl (maxChroma - minChroma)
           in Inr (fl (fl (fl (fl (- 4 * chromaDifference) * fl (normalizedStep\<^sup>2))
                           + fl (fl (4 * chromaDifference) * normalizedStep))
                       + minChroma)))"

text \<open>\<open>reverseWCAGContrast(wcagContrast)\<close> leaves \<open>y\<close> at its default \<open>1\<close>.\<close>

definition computeLightness :: "real \<Rightarrow> error + real" where
  "computeLightness step =
     (let wcagContrast = scaleToContrast step;
          targetLuminance = reverseWCAGContrast wcagContrast 1
      in case targetLuminance of
           None \<Rightarrow> Inl (TargetLuminanceProblem step)
         | Some targetLuminance \<Rightarrow> Inr (yToOkhslLightness targetLuminance))"

text \<open>
  The options object. \<open>enableBezoldBruckeShift\<close> is optional in the source and
  defaults to \<open>true\<close> when it is absent.
\<close>

record GenerateColorScaleOptions =
  baseHue :: real
  minChroma :: real
  maxChroma :: real
  steps :: "real list"
  enableBezoldBruckeShift :: "bool option"

type_synonym srgb = "real \<times> real \<times> real"

text \<open>
  \<open>ColorScale\<close> is an object indexed by step. \<open>okhslToSrgb\<close> wraps the external
  library \<open>colorjs.io\<close>; it is a parameter of the model, a function from the
  \<open>[h, s, l]\<close> triple to the sRGB triple.
\<close>

type_synonym ColorScale = "real \<rightharpoonup> srgb"

text \<open>
  The first three lines of the callback passed to \<open>steps.reduce\<close>, and the
  conversion: the colour of one step.
\<close>

definition stepColor ::
  "(real \<times> real \<times> real \<Rightarrow> srgb) \<Rightarrow> real \<Rightarrow> real \<Rightarrow> real \<Rightarrow> bool \<Rightarrow> real \<Rightarrow> error + srgb" where
  "stepColor okhslToSrgb bHue minC maxC shift step =
     (case computeHue step bHue shift of
        Inl e \<Rightarrow> Inl e
      | Inr h \<Rightarrow>
         (case computeChroma step minC maxC of
            Inl e \<Rightarrow> Inl e
          | Inr s \<Rightarrow>
             (case computeLightness step of
                Inl e \<Rightarrow> Inl e
              | Inr l \<Rightarrow> Inr (okhslToSrgb (h, s, l)))))"

text \<open>The whole callback: \<open>{ ...scale, [step]: srgb }\<close>.\<close>

definition scaleCallback ::
  "(real \<times> real \<times> real \<Rightarrow> srgb) \<Rightarrow> real \<Rightarrow> real \<Rightarrow> real \<Rightarrow> bool \<Rightarrow>
     ColorScale \<Rightarrow> real \<Rightarrow> error + ColorScale" where
  "scaleCallback okhslToSrgb bHue minC maxC shift scale step =
     (case stepColor okhslToSrgb bHue minC maxC shift step of
        Inl e \<Rightarrow> Inl e
      | Inr rgb \<Rightarrow> Inr (scale(step \<mapsto> rgb)))"

text \<open>\<open>Array.prototype.reduce\<close> with a callback that may throw.\<close>

fun reduce :: "('b \<Rightarrow> 'a \<Rightarrow> error + 'b) \<Rightarrow> 'b \<Rightarrow> 'a list \<Rightarrow> error + 'b" where
  "reduce f acc [] = Inr acc"
| "reduce f acc (x # xs) =
     (case f acc x of
        Inl e \<Rightarrow> Inl e
      | Inr acc' \<Rightarrow> reduce f acc' xs)"

definition generateColorScale ::
  "(real \<times> real \<times> real \<Rightarrow> srgb) \<Rightarrow> GenerateColorScaleOptions \<Rightarrow> error + ColorScale" where
  "generateColorScale okhslToSrgb options =
     (let shift = (case enableBezoldBruckeShift options of None \<Rightarrow> True | Some b \<Rightarrow> b)
      in if baseHue options < 0 \<or> baseHue options > 360 then Inl BaseHueOutOfRange
         else if minChroma options < 0 \<or> minChroma options > 1
                 \<or> maxChroma options < 0 \<or> maxChroma options > 1
           then Inl ChromaOutOfRange
         else if minChroma options > maxChroma options then Inl ChromaNotOrdered
         else if list_ex (\<lambda>step. step < 0 \<or> step > 1000 \<or> \<not> isInteger step) (steps options)
           then Inl StepsNotValid
         else reduce (scaleCallback okhslToSrgb (baseHue options) (minChroma options)
                        (maxChroma options) shift)
                Map.empty (steps options))"

section \<open>The contrast model\<close>

text \<open>
  Claim C2. For a contrast in \<open>[1, 21]\<close> and a reference luminance \<open>y\<close> in \<open>[0, 1]\<close>,
  \<open>reverseWCAGContrast\<close> returns \<open>(y + 0.05) / contrast - 0.05\<close> when \<open>y > 0.18\<close> and
  \<open>contrast * (y + 0.05) - 0.05\<close> when \<open>y \<le> 0.18\<close>, clamped into \<open>[0, 1]\<close>; the returned
  luminance lies in \<open>[0, 1]\<close>.
\<close>

theorem reverseWCAGContrast_formula:
  assumes "1 \<le> contrast" "contrast \<le> 21" "0 \<le> y" "y \<le> 1"
  shows "reverseWCAGContrast contrast y =
           Some (max 0 (min 1 (if y > 0.18 then (y + 0.05) / contrast - 0.05
                               else contrast * (y + 0.05) - 0.05)))
         \<and> (\<exists>r. reverseWCAGContrast contrast y = Some r \<and> 0 \<le> r \<and> r \<le> 1)"
  using assms by (simp add: reverseWCAGContrast_def Let_def)

theorem reverseWCAGContrast_formula_witness:
  "reverseWCAGContrast 4.5 1 = Some (11 / 60) \<and> reverseWCAGContrast 2 0.1 = Some 0.25"
  using reverseWCAGContrast_formula [of "4.5" 1] reverseWCAGContrast_formula [of 2 "0.1"]
  by simp

text \<open>
  Claim C3. \<open>reverseWCAGContrast contrast y\<close> returns the failure value exactly when
  \<open>contrast\<close> is outside \<open>[1, 21]\<close> or \<open>y\<close> is outside \<open>[0, 1]\<close>; inside both ranges it
  returns a number.
\<close>

theorem reverseWCAGContrast_fails_iff:
  "(reverseWCAGContrast contrast y = None)
     = (contrast < 1 \<or> contrast > 21 \<or> y < 0 \<or> y > 1)
   \<and> (1 \<le> contrast \<and> contrast \<le> 21 \<and> 0 \<le> y \<and> y \<le> 1
        \<longrightarrow> (\<exists>r. reverseWCAGContrast contrast y = Some r))"
  by (auto simp add: reverseWCAGContrast_def Let_def)

theorem reverseWCAGContrast_fails_iff_witness:
  "reverseWCAGContrast 22 0.5 = None \<and> reverseWCAGContrast 3 2 = None
   \<and> (\<exists>r. reverseWCAGContrast 21 0 = Some r)"
  using reverseWCAGContrast_fails_iff [of 22 "0.5"] reverseWCAGContrast_fails_iff [of 3 2]
    reverseWCAGContrast_fails_iff [of 21 0]
  by simp

text \<open>
  Claim C5. \<open>scaleToContrast step\<close> is \<open>exp (3.04 * step / 1000)\<close>; it is strictly
  increasing (hence monotone) in the step, and \<open>scaleToContrast 0 = 1\<close>. This holds
  for every real step, in particular on \<open>[0, 1000]\<close>.
\<close>

theorem scaleToContrast_exp_mono:
  "scaleToContrast step = exp (3.04 * (step / 1000))
   \<and> (step < step' \<longrightarrow> scaleToContrast step < scaleToContrast step')
   \<and> (step \<le> step' \<longrightarrow> scaleToContrast step \<le> scaleToContrast step')
   \<and> scaleToContrast 0 = 1"
  by (simp add: scaleToContrast_def Let_def)

theorem scaleToContrast_exp_mono_witness:
  "scaleToContrast 0 < scaleToContrast 500 \<and> scaleToContrast 500 \<le> scaleToContrast 1000"
  using scaleToContrast_exp_mono [of 0 500] scaleToContrast_exp_mono [of 500 1000]
  by simp

section \<open>Binary64 rounding\<close>

lemma rne_of_int: "rne (of_int n) = n"
  by (simp add: rne_def)

lemma rne_error: "\<bar>of_int (rne x) - x\<bar> \<le> 1 / 2"
proof -
  have "of_int \<lfloor>x\<rfloor> \<le> x" "x < of_int \<lfloor>x\<rfloor> + 1"
    by linarith+
  then show ?thesis
    by (auto simp add: rne_def Let_def)
qed

lemma rne_ge_int:
  assumes "of_int n \<le> x"
  shows "n \<le> rne x"
proof -
  have "n \<le> \<lfloor>x\<rfloor>" using assms by (simp add: le_floor_iff)
  moreover have "\<lfloor>x\<rfloor> \<le> rne x" by (simp add: rne_def Let_def)
  ultimately show ?thesis by linarith
qed

lemma rne_le_int:
  assumes "x \<le> of_int n"
  shows "rne x \<le> n"
proof (cases "x = of_int n")
  case True
  then show ?thesis by (simp add: rne_of_int)
next
  case False
  then have "x < of_int n" using assms by simp
  then have "\<lfloor>x\<rfloor> < n" by (simp add: floor_less_iff)
  moreover have "rne x \<le> \<lfloor>x\<rfloor> + 1" by (simp add: rne_def Let_def)
  ultimately show ?thesis by linarith
qed

lemma rne_minus: "rne (- x) = - rne x"
proof (cases "x = of_int \<lfloor>x\<rfloor>")
  case True
  then obtain n where "x = of_int n" ..
  then have "rne (- x) = rne (of_int (- n))" by simp
  also have "\<dots> = - n" by (rule rne_of_int)
  finally show ?thesis using \<open>x = of_int n\<close> by (simp add: rne_of_int)
next
  case False
  have b: "of_int \<lfloor>x\<rfloor> \<le> x" "x < of_int \<lfloor>x\<rfloor> + 1"
    by linarith+
  have "of_int \<lfloor>x\<rfloor> < x" using False b by linarith
  have f: "\<lfloor>- x\<rfloor> = - \<lfloor>x\<rfloor> - 1"
  proof (rule floor_unique)
    show "of_int (- \<lfloor>x\<rfloor> - 1) \<le> - x"
      by (simp; linarith)
    show "- x < of_int (- \<lfloor>x\<rfloor> - 1) + 1"
      using \<open>of_int \<lfloor>x\<rfloor> < x\<close> by (simp; linarith)
  qed
  show ?thesis
    using b \<open>of_int \<lfloor>x\<rfloor> < x\<close> unfolding rne_def Let_def f
    by (auto simp add: algebra_simps)
qed

lemma two_powi_powr: "(2::real) powi k = 2 powr (of_int k)"
  by (simp add: powr_real_of_int')

lemma floor_log2_eq:
  assumes "2 powi k \<le> a" "a < 2 powi (k + 1)"
  shows "\<lfloor>log 2 a\<rfloor> = k"
proof -
  have "0 < (2::real) powi k" by simp
  then have "0 < a" using assms(1) by linarith
  then show ?thesis
    using assms by (simp add: floor_log_eq_powr_iff two_powi_powr)
qed

lemma floor_log2_le:
  assumes "0 < a" "a \<le> 2 powi k"
  shows "\<lfloor>log 2 a\<rfloor> \<le> k"
proof -
  have "0 < (2::real) powr (of_int k)" by simp
  then have "log 2 a \<le> log 2 (2 powr (of_int k))"
    using assms by (subst log_le_cancel_iff) (simp_all add: two_powi_powr)
  then have "log 2 a \<le> of_int k" by simp
  then show ?thesis by (simp add: floor_le_iff)
qed

lemma fl_eval:
  assumes "2 powi k \<le> \<bar>x\<bar>" "\<bar>x\<bar> < 2 powi (k + 1)" "- 1022 \<le> k"
  shows "fl x = of_int (rne (x / 2 powi (k - 52))) * 2 powi (k - 52)"
proof -
  have "0 < (2::real) powi k" by simp
  then have "0 < \<bar>x\<bar>" using assms(1) by linarith
  then have "x \<noteq> 0" by simp
  have "ulpExp x = k - 52"
    using floor_log2_eq [OF assms(1,2)] assms(3) by (simp add: ulpExp_def)
  then show ?thesis using \<open>x \<noteq> 0\<close> by (simp add: fl_def)
qed

lemma fl_0: "fl 0 = 0"
  by (simp add: fl_def)

lemma fl_minus: "fl (- x) = - fl x"
  by (simp add: fl_def ulpExp_def rne_minus)

lemma ulpExp_ge: "- 1074 \<le> ulpExp x"
  by (simp add: ulpExp_def)

lemma ulpExp_le:
  assumes "x \<noteq> 0" "\<bar>x\<bar> \<le> 2 powi k" "- 1022 \<le> k"
  shows "ulpExp x \<le> k - 52"
proof -
  have "\<lfloor>log 2 \<bar>x\<bar>\<rfloor> \<le> k"
    using assms(1,2) by (intro floor_log2_le) simp_all
  then show ?thesis using assms(3) by (simp add: ulpExp_def)
qed

lemma fl_scaled:
  assumes "x \<noteq> 0"
  shows "fl x - x = (of_int (rne (x / 2 powi ulpExp x)) - x / 2 powi ulpExp x) * 2 powi ulpExp x"
  using assms by (simp add: fl_def algebra_simps)

lemma fl_error:
  assumes "\<bar>x\<bar> \<le> 2 powi k" "- 1022 \<le> k"
  shows "\<bar>fl x - x\<bar> \<le> 2 powi (k - 53)"
proof (cases "x = 0")
  case True
  then show ?thesis by (simp add: fl_0)
next
  case False
  let ?e = "ulpExp x"
  have e: "?e \<le> k - 52" using ulpExp_le [OF False assms] .
  have "\<bar>fl x - x\<bar> = \<bar>of_int (rne (x / 2 powi ?e)) - x / 2 powi ?e\<bar> * 2 powi ?e"
    by (simp add: fl_scaled [OF False] abs_mult)
  also have "\<dots> \<le> 1 / 2 * 2 powi ?e"
    by (intro mult_right_mono rne_error) simp
  also have "\<dots> = 2 powi (?e - 1)"
    by (simp add: power_int_diff)
  also have "\<dots> \<le> 2 powi (k - 53)"
    using e by (intro power_int_increasing) simp_all
  finally show ?thesis .
qed

lemma fl_nonneg:
  assumes "0 \<le> x"
  shows "0 \<le> fl x"
proof (cases "x = 0")
  case True
  then show ?thesis by (simp add: fl_0)
next
  case False
  have "of_int 0 \<le> x / 2 powi ulpExp x" using assms by simp
  then have "0 \<le> rne (x / 2 powi ulpExp x)" by (rule rne_ge_int)
  then show ?thesis using False by (simp add: fl_def)
qed

lemma fl_le_pow2:
  assumes "0 \<le> x" "x \<le> 2 powi k" "- 1022 \<le> k"
  shows "fl x \<le> 2 powi k"
proof (cases "x = 0")
  case True
  then show ?thesis by (simp add: fl_0)
next
  case False
  let ?e = "ulpExp x"
  have e: "?e \<le> k - 52" using ulpExp_le [OF False _ assms(3)] assms(1,2) by simp
  then have n: "0 \<le> k - ?e" by simp
  have "x / 2 powi ?e \<le> 2 powi k / 2 powi ?e"
    using assms(2) by (intro divide_right_mono) simp_all
  also have "\<dots> = 2 powi (k - ?e)"
    by (simp add: power_int_diff)
  also have "\<dots> = of_int (2 ^ nat (k - ?e))"
    using n by (simp add: power_int_nonneg_exp)
  finally have "rne (x / 2 powi ?e) \<le> 2 ^ nat (k - ?e)"
    by (rule rne_le_int)
  then have "(of_int (rne (x / 2 powi ?e)) :: real) \<le> of_int (2 ^ nat (k - ?e))"
    by (simp only: of_int_le_iff)
  also have "\<dots> = 2 powi (k - ?e)"
    using n by (simp add: power_int_nonneg_exp)
  finally have "of_int (rne (x / 2 powi ?e)) * 2 powi ?e \<le> 2 powi (k - ?e) * (2 powi ?e :: real)"
    by (intro mult_right_mono) simp_all
  also have "\<dots> = 2 powi k"
    by (simp add: power_int_diff)
  finally show ?thesis using False by (simp add: fl_def)
qed

lemma fl_abs_le_pow2:
  assumes "\<bar>x\<bar> \<le> 2 powi k" "- 1022 \<le> k"
  shows "\<bar>fl x\<bar> \<le> 2 powi k"
proof (cases "0 \<le> x")
  case True
  then show ?thesis
    using fl_nonneg [OF True] fl_le_pow2 [OF True _ assms(2)] assms(1) by simp
next
  case False
  then have n: "0 \<le> - x" by simp
  have "fl (- x) \<le> 2 powi k"
    using fl_le_pow2 [OF n _ assms(2)] assms(1) False by simp
  then show ?thesis
    using fl_nonneg [OF n] by (simp add: fl_minus)
qed

lemma abs_ge_floor_log2:
  assumes "x \<noteq> 0"
  shows "2 powi \<lfloor>log 2 \<bar>x\<bar>\<rfloor> \<le> \<bar>x\<bar>"
proof -
  have "0 < \<bar>x\<bar>" using assms by simp
  then have "2 powr (of_int \<lfloor>log 2 \<bar>x\<bar>\<rfloor>) \<le> \<bar>x\<bar>"
    using floor_log_eq_powr_iff [of "\<bar>x\<bar>" 2 "\<lfloor>log 2 \<bar>x\<bar>\<rfloor>"] by simp
  then show ?thesis by (simp only: two_powi_powr)
qed

lemma abs_lt_floor_log2:
  assumes "x \<noteq> 0"
  shows "\<bar>x\<bar> < 2 powi (\<lfloor>log 2 \<bar>x\<bar>\<rfloor> + 1)"
proof -
  have "0 < \<bar>x\<bar>" using assms by simp
  then have "2 powr (of_int \<lfloor>log 2 \<bar>x\<bar>\<rfloor>) \<le> \<bar>x\<bar> \<and> \<bar>x\<bar> < 2 powr (of_int \<lfloor>log 2 \<bar>x\<bar>\<rfloor> + 1)"
    using floor_log_eq_powr_iff [of "\<bar>x\<bar>" 2 "\<lfloor>log 2 \<bar>x\<bar>\<rfloor>"] by simp
  then have "\<bar>x\<bar> < 2 powr (of_int (\<lfloor>log 2 \<bar>x\<bar>\<rfloor> + 1))" by simp
  then show ?thesis by (simp only: two_powi_powr)
qed

lemma fl_dyadic:
  assumes "- 1074 \<le> e" "\<bar>m\<bar> \<le> 2 ^ 53"
  shows "fl (of_int m * 2 powi e) = of_int m * 2 powi e"
proof (cases "m = 0")
  case True
  then show ?thesis by (simp add: fl_0)
next
  case False
  let ?y = "of_int m * 2 powi e :: real"
  let ?e' = "ulpExp ?y"
  have y0: "?y \<noteq> 0" using False by simp
  have "\<bar>?y\<bar> = of_int \<bar>m\<bar> * 2 powi e"
    by (simp add: abs_mult)
  also have "\<dots> \<le> of_int (2 ^ 53) * 2 powi e"
    using assms(2) by (intro mult_right_mono) (simp_all only: of_int_le_iff, simp)
  also have "\<dots> = 2 powi (e + 53)"
    by (simp add: power_int_add)
  finally have "\<lfloor>log 2 \<bar>?y\<bar>\<rfloor> \<le> e + 53"
    using y0 by (intro floor_log2_le) simp_all
  then have le: "?e' \<le> e + 1"
    using assms(1) by (simp add: ulpExp_def)
  have "\<exists>n. ?y / 2 powi ?e' = of_int n"
  proof (cases "?e' \<le> e")
    case True
    then have "?y / 2 powi ?e' = of_int m * 2 powi (e - ?e')"
      by (simp add: power_int_diff)
    also have "\<dots> = of_int (m * 2 ^ nat (e - ?e'))"
      using True by (simp add: power_int_nonneg_exp)
    finally show ?thesis by blast
  next
    case False
    then have eq: "?e' = e + 1" using le by simp
    then have "e + 1 \<le> \<lfloor>log 2 \<bar>?y\<bar>\<rfloor> - 52"
      using assms(1) by (simp add: ulpExp_def max_def split: if_splits)
    then have "e + 53 \<le> \<lfloor>log 2 \<bar>?y\<bar>\<rfloor>" by simp
    moreover have "\<bar>?y\<bar> < 2 powi (\<lfloor>log 2 \<bar>?y\<bar>\<rfloor> + 1)"
      using abs_lt_floor_log2 [OF y0] .
    moreover have "0 < \<bar>?y\<bar>" using y0 by simp
    moreover have "2 powi \<lfloor>log 2 \<bar>?y\<bar>\<rfloor> \<le> \<bar>?y\<bar>"
      using abs_ge_floor_log2 [OF y0] .
    moreover have "(2::real) powi (e + 53) \<le> 2 powi \<lfloor>log 2 \<bar>?y\<bar>\<rfloor>"
      using \<open>e + 53 \<le> \<lfloor>log 2 \<bar>?y\<bar>\<rfloor>\<close> by (intro power_int_increasing) simp_all
    ultimately have "2 powi (e + 53) \<le> \<bar>?y\<bar>"
      by linarith
    then have "2 powi (e + 53) \<le> of_int \<bar>m\<bar> * (2 powi e :: real)"
      by (simp add: abs_mult)
    then have "2 powi 53 * 2 powi e \<le> of_int \<bar>m\<bar> * (2 powi e :: real)"
      by (simp add: power_int_add mult.commute)
    then have "(2::real) powi 53 \<le> of_int \<bar>m\<bar>"
      by (simp only: mult_le_cancel_right_pos zero_less_power_int zero_less_numeral)
    then have "(2::int) ^ 53 \<le> \<bar>m\<bar>"
      by (simp add: numeral_power_le_of_int_cancel_iff)
    then have "\<bar>m\<bar> = 2 ^ 53" using assms(2) by simp
    then have "m = 2 ^ 53 \<or> m = - (2 ^ 53)" by linarith
    then have "\<exists>n. m = 2 * n" by auto
    then obtain n where "m = 2 * n" ..
    then have "?y / 2 powi ?e' = of_int n"
      unfolding eq by (simp add: power_int_add)
    then show ?thesis by blast
  qed
  then obtain n where n: "?y / 2 powi ?e' = of_int n" ..
  then have "of_int (rne (?y / 2 powi ?e')) * 2 powi ?e' = ?y / 2 powi ?e' * 2 powi ?e'"
    by (simp only: rne_of_int)
  also have "\<dots> = ?y" by simp
  finally show ?thesis using y0 by (simp only: fl_def if_False)
qed

lemma fl_mantissa_bound:
  assumes "x \<noteq> 0"
  shows "\<bar>rne (x / 2 powi ulpExp x)\<bar> \<le> 2 ^ 53"
proof -
  let ?e = "ulpExp x"
  let ?k = "\<lfloor>log 2 \<bar>x\<bar>\<rfloor>"
  have "?k - 52 \<le> ?e" by (simp add: ulpExp_def)
  then have "?k + 1 - ?e \<le> 53" by simp
  have "\<bar>x / 2 powi ?e\<bar> = \<bar>x\<bar> / 2 powi ?e"
    by simp
  also have "\<dots> \<le> 2 powi (?k + 1) / 2 powi ?e"
    using abs_lt_floor_log2 [OF assms] by (intro divide_right_mono) simp_all
  also have "\<dots> = 2 powi (?k + 1 - ?e)"
    by (simp add: power_int_diff)
  also have "\<dots> \<le> 2 powi 53"
    using \<open>?k + 1 - ?e \<le> 53\<close> by (intro power_int_increasing) simp_all
  finally have b: "\<bar>x / 2 powi ?e\<bar> \<le> of_int (2 ^ 53)" by simp
  have "rne (x / 2 powi ?e) \<le> 2 ^ 53"
    using b by (intro rne_le_int) linarith
  moreover have "of_int (- (2 ^ 53)) \<le> x / 2 powi ?e"
    using b by (simp only: of_int_minus abs_le_iff) linarith
  then have "- (2 ^ 53) \<le> rne (x / 2 powi ?e)"
    by (rule rne_ge_int)
  ultimately show ?thesis by linarith
qed

lemma fl_idem: "fl (fl x) = fl x"
proof (cases "x = 0")
  case True
  then show ?thesis by (simp add: fl_0)
next
  case False
  then have "fl x = of_int (rne (x / 2 powi ulpExp x)) * 2 powi ulpExp x"
    by (simp add: fl_def)
  then show ?thesis
    using fl_dyadic [OF ulpExp_ge fl_mantissa_bound [OF False]] by simp
qed

lemma fl_1: "fl 1 = 1"
  using fl_dyadic [of 0 1] by simp

section \<open>The chroma curve\<close>

lemma parabola_le_max:
  fixes d t :: real
  assumes "0 \<le> d"
  shows "- 4 * d * t ^ 2 + 4 * d * t \<le> d"
proof -
  have "d - (- 4 * d * t ^ 2 + 4 * d * t) = d * (2 * t - 1) ^ 2"
    by (simp add: power2_eq_square algebra_simps)
  moreover have "0 \<le> d * (2 * t - 1) ^ 2"
    using assms by simp
  ultimately show ?thesis by linarith
qed

lemma parabola_ge_zero:
  fixes d t :: real
  assumes "0 \<le> d" "0 \<le> t" "t \<le> 1"
  shows "0 \<le> - 4 * d * t ^ 2 + 4 * d * t"
proof -
  have "- 4 * d * t ^ 2 + 4 * d * t = 4 * (d * (t * (1 - t)))"
    by (simp add: power2_eq_square algebra_simps)
  moreover have "0 \<le> d * (t * (1 - t))"
    using assms by (intro mult_nonneg_nonneg) auto
  ultimately show ?thesis by linarith
qed

text \<open>
  Three calls evaluated rounding by rounding. The literals \<open>0.3\<close>, \<open>0.9\<close>, \<open>0.4\<close> and
  \<open>0.967\<close> denote their nearest binary64 numbers. In each proof \<open>t\<close> is the normalized
  step, \<open>d\<close> the chroma difference, \<open>p\<close> the square, \<open>a\<close>, \<open>A\<close>, \<open>b\<close>, \<open>B\<close> the products
  of the two terms, \<open>S\<close> their sum and \<open>R\<close> the result.
\<close>

lemma fl_03: "fl 0.3 = (5404319552844595 / 2 ^ 54)"
  by (subst fl_eval [where k = "-2"]) (simp_all add: rne_def Let_def power2_eq_square)

lemma fl_09: "fl 0.9 = (8106479329266893 / 2 ^ 53)"
  by (subst fl_eval [where k = "-1"]) (simp_all add: rne_def Let_def power2_eq_square)

lemma fl_04: "fl 0.4 = (3602879701896397 / 2 ^ 53)"
  by (subst fl_eval [where k = "-2"]) (simp_all add: rne_def Let_def power2_eq_square)

lemma fl_0967: "fl 0.967 = (8709961679334539 / 2 ^ 53)"
  by (subst fl_eval [where k = "-1"]) (simp_all add: rne_def Let_def power2_eq_square)

lemma chroma_peak: "computeChroma 500 (fl 0.3) (fl 0.9) = Inr (4053239664633447 / 2 ^ 52)"
proof -
  have t: "fl (500 / 1000) = (1 / 2 ^ 1)"
    by (subst fl_eval [where k = "-1"]) (simp_all add: rne_def Let_def power2_eq_square)
  have d: "fl ((8106479329266893 / 2 ^ 53) - (5404319552844595 / 2 ^ 54)) = (1351079888211149 / 2 ^ 51)"
    by (subst fl_eval [where k = "-1"]) (simp_all add: rne_def Let_def power2_eq_square)
  have a: "fl (- 4 * (1351079888211149 / 2 ^ 51)) = (- (1351079888211149 / 2 ^ 49))"
    by (subst fl_eval [where k = "1"]) (simp_all add: rne_def Let_def power2_eq_square)
  have p: "fl ((1 / 2 ^ 1)\<^sup>2) = (1 / 2 ^ 2)"
    by (subst fl_eval [where k = "-2"]) (simp_all add: rne_def Let_def power2_eq_square)
  have A: "fl ((- (1351079888211149 / 2 ^ 49)) * (1 / 2 ^ 2)) = (- (1351079888211149 / 2 ^ 51))"
    by (subst fl_eval [where k = "-1"]) (simp_all add: rne_def Let_def power2_eq_square)
  have b: "fl (4 * (1351079888211149 / 2 ^ 51)) = (1351079888211149 / 2 ^ 49)"
    by (subst fl_eval [where k = "1"]) (simp_all add: rne_def Let_def power2_eq_square)
  have B: "fl ((1351079888211149 / 2 ^ 49) * (1 / 2 ^ 1)) = (1351079888211149 / 2 ^ 50)"
    by (subst fl_eval [where k = "0"]) (simp_all add: rne_def Let_def power2_eq_square)
  have S: "fl ((- (1351079888211149 / 2 ^ 51)) + (1351079888211149 / 2 ^ 50)) = (1351079888211149 / 2 ^ 51)"
    by (subst fl_eval [where k = "-1"]) (simp_all add: rne_def Let_def power2_eq_square)
  have R: "fl ((1351079888211149 / 2 ^ 51) + (5404319552844595 / 2 ^ 54)) = (4053239664633447 / 2 ^ 52)"
    by (subst fl_eval [where k = "-1"]) (simp_all add: rne_def Let_def power2_eq_square)
  show ?thesis
    unfolding computeChroma_def Let_def fl_03 fl_09 t d a p A b B S R by simp
qed

lemma chroma_s100: "computeChroma 100 (fl 0.4) (fl 0.967) = Inr (340089325860883 / 2 ^ 49)"
proof -
  have t: "fl (100 / 1000) = (3602879701896397 / 2 ^ 55)"
    by (subst fl_eval [where k = "-4"]) (simp_all add: rne_def Let_def power2_eq_square)
  have d: "fl ((8709961679334539 / 2 ^ 53) - (3602879701896397 / 2 ^ 53)) = (2553540988719071 / 2 ^ 52)"
    by (subst fl_eval [where k = "-1"]) (simp_all add: rne_def Let_def power2_eq_square)
  have a: "fl (- 4 * (2553540988719071 / 2 ^ 52)) = (- (2553540988719071 / 2 ^ 50))"
    by (subst fl_eval [where k = "1"]) (simp_all add: rne_def Let_def power2_eq_square)
  have p: "fl ((3602879701896397 / 2 ^ 55)\<^sup>2) = (1441151880758559 / 2 ^ 57)"
    by (subst fl_eval [where k = "-7"]) (simp_all add: rne_def Let_def power2_eq_square)
  have A: "fl ((- (2553540988719071 / 2 ^ 50)) * (1441151880758559 / 2 ^ 57)) = (- (6537064931120823 / 2 ^ 58))"
    by (subst fl_eval [where k = "-6"]) (simp_all add: rne_def Let_def power2_eq_square)
  have b: "fl (4 * (2553540988719071 / 2 ^ 52)) = (2553540988719071 / 2 ^ 50)"
    by (subst fl_eval [where k = "1"]) (simp_all add: rne_def Let_def power2_eq_square)
  have B: "fl ((2553540988719071 / 2 ^ 50) * (3602879701896397 / 2 ^ 55)) = (2042832790975257 / 2 ^ 53)"
    by (subst fl_eval [where k = "-3"]) (simp_all add: rne_def Let_def power2_eq_square)
  have S: "fl ((- (6537064931120823 / 2 ^ 58)) + (2042832790975257 / 2 ^ 53)) = (7354198047510925 / 2 ^ 55)"
    by (subst fl_eval [where k = "-3"]) (simp_all add: rne_def Let_def power2_eq_square)
  have R: "fl ((7354198047510925 / 2 ^ 55) + (3602879701896397 / 2 ^ 53)) = (340089325860883 / 2 ^ 49)"
    by (subst fl_eval [where k = "-1"]) (simp_all add: rne_def Let_def power2_eq_square)
  show ?thesis
    unfolding computeChroma_def Let_def fl_04 fl_0967 t d a p A b B S R by simp
qed

lemma chroma_s900: "computeChroma 900 (fl 0.4) (fl 0.967) = Inr (5441429213774127 / 2 ^ 53)"
proof -
  have t: "fl (900 / 1000) = (8106479329266893 / 2 ^ 53)"
    by (subst fl_eval [where k = "-1"]) (simp_all add: rne_def Let_def power2_eq_square)
  have d: "fl ((8709961679334539 / 2 ^ 53) - (3602879701896397 / 2 ^ 53)) = (2553540988719071 / 2 ^ 52)"
    by (subst fl_eval [where k = "-1"]) (simp_all add: rne_def Let_def power2_eq_square)
  have a: "fl (- 4 * (2553540988719071 / 2 ^ 52)) = (- (2553540988719071 / 2 ^ 50))"
    by (subst fl_eval [where k = "1"]) (simp_all add: rne_def Let_def power2_eq_square)
  have p: "fl ((8106479329266893 / 2 ^ 53)\<^sup>2) = (1823957849085051 / 2 ^ 51)"
    by (subst fl_eval [where k = "-1"]) (simp_all add: rne_def Let_def power2_eq_square)
  have A: "fl ((- (2553540988719071 / 2 ^ 50)) * (1823957849085051 / 2 ^ 51)) = (- (8273472803449791 / 2 ^ 52))"
    by (subst fl_eval [where k = "0"]) (simp_all add: rne_def Let_def power2_eq_square)
  have b: "fl (4 * (2553540988719071 / 2 ^ 52)) = (2553540988719071 / 2 ^ 50)"
    by (subst fl_eval [where k = "1"]) (simp_all add: rne_def Let_def power2_eq_square)
  have B: "fl ((2553540988719071 / 2 ^ 50) * (8106479329266893 / 2 ^ 53)) = (574546722461791 / 2 ^ 48)"
    by (subst fl_eval [where k = "1"]) (simp_all add: rne_def Let_def power2_eq_square)
  have S: "fl ((- (8273472803449791 / 2 ^ 52)) + (574546722461791 / 2 ^ 48)) = (919274755938865 / 2 ^ 52)"
    by (subst fl_eval [where k = "-3"]) (simp_all add: rne_def Let_def power2_eq_square)
  have R: "fl ((919274755938865 / 2 ^ 52) + (3602879701896397 / 2 ^ 53)) = (5441429213774127 / 2 ^ 53)"
    by (subst fl_eval [where k = "-1"]) (simp_all add: rne_def Let_def power2_eq_square)
  show ?thesis
    unfolding computeChroma_def Let_def fl_04 fl_0967 t d a p A b B S R by simp
qed

text \<open>
  Claim C7 says that \<open>computeChroma\<close> equals \<open>maxChroma\<close> at step 500 and that
  \<open>computeChroma step = computeChroma (1000 - step)\<close>. This holds for the exact parabola
  but not for the binary64 results. With \<open>minChroma = 0.3\<close> and \<open>maxChroma = 0.9\<close> (the
  binary64 numbers of these literals) step 500 gives \<open>0.9000000000000001\<close>, one unit in
  the last place above \<open>maxChroma\<close>. With \<open>minChroma = 0.4\<close> and \<open>maxChroma = 0.967\<close> step 100
  gives \<open>0.60412\<close> and step 900 gives \<open>0.6041199999999999\<close>.
\<close>

theorem computeChroma_exact_counterexample:
  "computeChroma 500 (fl 0.3) (fl 0.9) = Inr (4053239664633447 / 2 ^ 52)
   \<and> fl 0.9 < 4053239664633447 / 2 ^ 52
   \<and> computeChroma 100 (fl 0.4) (fl 0.967) = Inr (340089325860883 / 2 ^ 49)
   \<and> computeChroma (1000 - 100) (fl 0.4) (fl 0.967) = Inr (5441429213774127 / 2 ^ 53)
   \<and> computeChroma 100 (fl 0.4) (fl 0.967) \<noteq> computeChroma (1000 - 100) (fl 0.4) (fl 0.967)"
proof -
  have "fl 0.9 < 4053239664633447 / 2 ^ 52"
    unfolding fl_09 by simp
  moreover have "computeChroma (1000 - 100) (fl 0.4) (fl 0.967) = Inr (5441429213774127 / 2 ^ 53)"
    using chroma_s900 by simp
  moreover have "(340089325860883 / 2 ^ 49 :: real) \<noteq> 5441429213774127 / 2 ^ 53"
    by simp
  ultimately show ?thesis
    using chroma_peak chroma_s100 by simp
qed

text \<open>
  The rounding error of one call: each of the nine roundings changes a value of
  magnitude at most \<open>2 ^ n\<close>, \<open>n \<le> 4\<close>, by at most \<open>2 ^ n * 2 powi (- 53)\<close>.
\<close>

lemma fl_approx:
  assumes "\<bar>x\<bar> \<le> 2 ^ n" "n \<le> 4"
  shows "\<bar>fl x - x\<bar> \<le> 2 ^ n * 2 powi (- 53)" and "\<bar>fl x\<bar> \<le> 2 ^ n"
proof -
  have x: "\<bar>x\<bar> \<le> 2 powi (int n)" using assms(1) by simp
  have k: "- 1022 \<le> int n" by simp
  have "\<bar>fl x - x\<bar> \<le> 2 powi (int n - 53)"
    by (rule fl_error [OF x k])
  also have "\<dots> = 2 ^ n * 2 powi (- 53)"
    by (simp add: power_int_diff power_int_minus field_simps)
  finally show "\<bar>fl x - x\<bar> \<le> 2 ^ n * 2 powi (- 53)" .
  show "\<bar>fl x\<bar> \<le> 2 ^ n"
    using fl_abs_le_pow2 [OF x k] by simp
qed

lemma abs_mult_le:
  fixes x y :: real
  assumes "\<bar>x\<bar> \<le> X" "\<bar>y\<bar> \<le> Y"
  shows "\<bar>x * y\<bar> \<le> X * Y"
proof -
  have "\<bar>x * y\<bar> = \<bar>x\<bar> * \<bar>y\<bar>" by (rule abs_mult)
  also have "\<dots> \<le> X * Y"
    using assms by (intro mult_mono) simp_all
  finally show ?thesis .
qed

lemma fl_unit_interval:
  assumes "0 \<le> x" "x \<le> 1"
  shows "0 \<le> fl x" and "fl x \<le> 1" and "\<bar>fl x - x\<bar> \<le> 2 powi (- 53)"
proof -
  show "0 \<le> fl x" using assms(1) by (rule fl_nonneg)
  show "fl x \<le> 1" using fl_le_pow2 [of x 0] assms by simp
  show "\<bar>fl x - x\<bar> \<le> 2 powi (- 53)"
    using fl_approx(1) [of x 0] assms by simp
qed

lemma chroma_rounding:
  fixes t d m T D P a A b B S R u :: real
  assumes t: "0 \<le> t" "t \<le> 1" and d: "0 \<le> d" "d \<le> 1" and m: "0 \<le> m" "m \<le> 1"
    and u: "u = 2 powi (- 53)"
    and T: "T = fl t" and P: "P = fl (T\<^sup>2)" and D: "D = fl d"
    and a: "a = fl (- 4 * D)" and A: "A = fl (a * P)"
    and b: "b = fl (4 * D)" and B: "B = fl (b * T)"
    and S: "S = fl (A + B)" and R: "R = fl (S + m)"
  shows "\<bar>R - (- 4 * d * t\<^sup>2 + 4 * d * t + m)\<bar> \<le> 64 * u"
proof -
  have u0: "0 \<le> u" unfolding u by simp
  have T1: "0 \<le> T" "T \<le> 1" "\<bar>T - t\<bar> \<le> u"
    unfolding T u using fl_unit_interval [OF t] by simp_all
  have T2: "0 \<le> T\<^sup>2" "T\<^sup>2 \<le> 1"
    using T1(1,2) by (simp_all add: power_le_one)
  have P1: "0 \<le> P" "P \<le> 1" "\<bar>P - T\<^sup>2\<bar> \<le> u"
    unfolding P u using fl_unit_interval [OF T2] by simp_all
  have "\<bar>(T - t) * (T + t)\<bar> \<le> u * 2"
    using T1 t by (intro abs_mult_le) simp_all
  moreover have "P - t\<^sup>2 = (P - T\<^sup>2) + (T - t) * (T + t)"
    by (simp add: power2_eq_square algebra_simps)
  ultimately have Pt: "\<bar>P - t\<^sup>2\<bar> \<le> 3 * u"
    using P1(3) by linarith
  have D1: "0 \<le> D" "D \<le> 1" "\<bar>D - d\<bar> \<le> u"
    unfolding D u using fl_unit_interval [OF d] by simp_all
  have "\<bar>- 4 * D\<bar> \<le> 2 ^ 2" using D1 by simp
  from fl_approx [OF this] have a1: "\<bar>a - (- 4 * D)\<bar> \<le> 4 * u" "\<bar>a\<bar> \<le> 4"
    unfolding a u by simp_all
  have ad: "\<bar>a + 4 * d\<bar> \<le> 8 * u"
    using a1(1) D1(3) by linarith
  have "\<bar>a * P\<bar> \<le> 4 * 1"
    using a1(2) P1 by (intro abs_mult_le) simp_all
  then have "\<bar>a * P\<bar> \<le> 2 ^ 2" by simp
  from fl_approx [OF this] have A1: "\<bar>A - a * P\<bar> \<le> 4 * u" "\<bar>A\<bar> \<le> 4"
    unfolding A u by simp_all
  have "\<bar>a * (P - t\<^sup>2)\<bar> \<le> 4 * (3 * u)"
    using a1(2) Pt by (intro abs_mult_le) simp_all
  moreover have "\<bar>(a + 4 * d) * t\<^sup>2\<bar> \<le> (8 * u) * 1"
    using ad t by (intro abs_mult_le) (simp_all add: power_le_one)
  moreover have "a * P + 4 * d * t\<^sup>2 = a * (P - t\<^sup>2) + (a + 4 * d) * t\<^sup>2"
    by (simp add: algebra_simps)
  ultimately have aP: "\<bar>a * P + 4 * d * t\<^sup>2\<bar> \<le> 20 * u"
    by linarith
  have "\<bar>4 * D\<bar> \<le> 2 ^ 2" using D1 by simp
  from fl_approx [OF this] have b1: "\<bar>b - 4 * D\<bar> \<le> 4 * u" "\<bar>b\<bar> \<le> 4"
    unfolding b u by simp_all
  have bd: "\<bar>b - 4 * d\<bar> \<le> 8 * u"
    using b1(1) D1(3) by linarith
  have "\<bar>b * T\<bar> \<le> 4 * 1"
    using b1(2) T1 by (intro abs_mult_le) simp_all
  then have "\<bar>b * T\<bar> \<le> 2 ^ 2" by simp
  from fl_approx [OF this] have B1: "\<bar>B - b * T\<bar> \<le> 4 * u" "\<bar>B\<bar> \<le> 4"
    unfolding B u by simp_all
  have "\<bar>b * (T - t)\<bar> \<le> 4 * u"
    using b1(2) T1(3) by (intro abs_mult_le) simp_all
  moreover have "\<bar>(b - 4 * d) * t\<bar> \<le> (8 * u) * 1"
    using bd t by (intro abs_mult_le) simp_all
  moreover have "b * T - 4 * d * t = b * (T - t) + (b - 4 * d) * t"
    by (simp add: algebra_simps)
  ultimately have bT: "\<bar>b * T - 4 * d * t\<bar> \<le> 12 * u"
    by linarith
  have "\<bar>A + B\<bar> \<le> 2 ^ 3" using A1(2) B1(2) by simp
  from fl_approx [OF this] have S1: "\<bar>S - (A + B)\<bar> \<le> 8 * u" "\<bar>S\<bar> \<le> 8"
    unfolding S u by simp_all
  have "\<bar>S + m\<bar> \<le> 2 ^ 4" using S1(2) m by simp
  from fl_approx [OF this] have R1: "\<bar>R - (S + m)\<bar> \<le> 16 * u"
    unfolding R u by simp_all
  show ?thesis
    using R1 S1(1) A1(1) aP B1(1) bT by linarith
qed

lemma computeChroma_value:
  assumes "0 \<le> step" "step \<le> 1000" "0 \<le> minC" "minC \<le> maxC" "maxC \<le> 1"
  shows "computeChroma step minC maxC =
           Inr (fl (fl (fl (fl (- 4 * fl (maxC - minC)) * fl ((fl (step / 1000))\<^sup>2))
                        + fl (fl (4 * fl (maxC - minC)) * fl (step / 1000)))
                    + minC))"
    and "\<bar>fl (fl (fl (fl (- 4 * fl (maxC - minC)) * fl ((fl (step / 1000))\<^sup>2))
                   + fl (fl (4 * fl (maxC - minC)) * fl (step / 1000)))
               + minC)
           - (- 4 * (maxC - minC) * (step / 1000)\<^sup>2
              + 4 * (maxC - minC) * (step / 1000) + minC)\<bar> \<le> 2 powi (- 47)"
proof -
  let ?t = "step / 1000"
  let ?d = "maxC - minC"
  let ?T = "fl ?t"
  let ?D = "fl ?d"
  let ?R = "fl (fl (fl (fl (- 4 * ?D) * fl (?T\<^sup>2)) + fl (fl (4 * ?D) * ?T)) + minC)"
  have t: "0 \<le> ?t" "?t \<le> 1" using assms by simp_all
  have d: "0 \<le> ?d" "?d \<le> 1" using assms by simp_all
  have m: "0 \<le> minC" "minC \<le> 1" using assms by simp_all
  have T: "0 \<le> ?T" "?T \<le> 1" using fl_unit_interval [OF t] by simp_all
  show "computeChroma step minC maxC = Inr ?R"
    using T assms by (simp add: computeChroma_def Let_def)
  have "\<bar>?R - (- 4 * ?d * ?t\<^sup>2 + 4 * ?d * ?t + minC)\<bar> \<le> 64 * 2 powi (- 53)"
    by (rule chroma_rounding [OF t d m]) simp_all
  also have "\<dots> = 2 powi (- 47)" by simp
  finally show "\<bar>?R - (- 4 * ?d * ?t\<^sup>2 + 4 * ?d * ?t + minC)\<bar> \<le> 2 powi (- 47)" .
qed

lemma computeChroma_near:
  assumes "0 \<le> step" "step \<le> 1000" "0 \<le> minC" "minC \<le> maxC" "maxC \<le> 1"
  shows "\<exists>c. computeChroma step minC maxC = Inr c
           \<and> \<bar>c - (- 4 * (maxC - minC) * (step / 1000)\<^sup>2
                    + 4 * (maxC - minC) * (step / 1000) + minC)\<bar> \<le> 2 powi (- 47)"
  using computeChroma_value [OF assms] by blast

lemma computeChroma_ends:
  assumes "0 \<le> minC" "minC \<le> maxC" "maxC \<le> 1" "fl minC = minC"
  shows "computeChroma 0 minC maxC = Inr minC" and "computeChroma 1000 minC maxC = Inr minC"
proof -
  show "computeChroma 0 minC maxC = Inr minC"
    using assms by (simp add: computeChroma_def Let_def fl_0)
  show "computeChroma 1000 minC maxC = Inr minC"
    using assms by (simp add: computeChroma_def Let_def fl_0 fl_1 fl_idem fl_minus)
qed

lemma fl_quarter: "fl (1 / 4) = 1 / 4"
  using fl_dyadic [of "- 2" 1] by simp

text \<open>
  Claim C7, amended. For \<open>0 \<le> minChroma \<le> maxChroma \<le> 1\<close>, \<open>minChroma\<close> a binary64
  number, and a step in \<open>[0, 1000]\<close>, \<open>computeChroma\<close> returns the binary64 evaluation of
  the parabola
  \<open>-4 * (maxChroma - minChroma) * t\<^sup>2 + 4 * (maxChroma - minChroma) * t + minChroma\<close> in
  \<open>t = step / 1000\<close>. The result is within \<open>2 powi (- 47)\<close> of the exact value of the
  parabola, hence between \<open>minChroma\<close> and \<open>maxChroma\<close> up to that error. It equals
  \<open>minChroma\<close> exactly at steps 0 and 1000, is within \<open>2 powi (- 47)\<close> of \<open>maxChroma\<close> at
  step 500, and \<open>computeChroma step\<close> and \<open>computeChroma (1000 - step)\<close> differ by at most
  \<open>2 powi (- 46)\<close>.
\<close>

theorem computeChroma_binary64:
  assumes "0 \<le> minC" "minC \<le> maxC" "maxC \<le> 1" "fl minC = minC"
    and "0 \<le> step" "step \<le> 1000"
  shows "computeChroma step minC maxC =
           Inr (fl (fl (fl (fl (- 4 * fl (maxC - minC)) * fl ((fl (step / 1000))\<^sup>2))
                        + fl (fl (4 * fl (maxC - minC)) * fl (step / 1000)))
                    + minC))
         \<and> (\<exists>c. computeChroma step minC maxC = Inr c
                \<and> \<bar>c - (- 4 * (maxC - minC) * (step / 1000)\<^sup>2
                         + 4 * (maxC - minC) * (step / 1000) + minC)\<bar> \<le> 2 powi (- 47)
                \<and> minC - 2 powi (- 47) \<le> c \<and> c \<le> maxC + 2 powi (- 47))
         \<and> computeChroma 0 minC maxC = Inr minC
         \<and> computeChroma 1000 minC maxC = Inr minC
         \<and> (\<exists>c. computeChroma 500 minC maxC = Inr c \<and> \<bar>c - maxC\<bar> \<le> 2 powi (- 47))
         \<and> (\<exists>c c'. computeChroma step minC maxC = Inr c
                \<and> computeChroma (1000 - step) minC maxC = Inr c'
                \<and> \<bar>c - c'\<bar> \<le> 2 powi (- 46))"
proof -
  let ?p = "\<lambda>s. - 4 * (maxC - minC) * (s / 1000)\<^sup>2 + 4 * (maxC - minC) * (s / 1000) + minC"
  have c1: "computeChroma step minC maxC =
           Inr (fl (fl (fl (fl (- 4 * fl (maxC - minC)) * fl ((fl (step / 1000))\<^sup>2))
                        + fl (fl (4 * fl (maxC - minC)) * fl (step / 1000)))
                    + minC))"
    using computeChroma_value(1) [OF assms(5,6) assms(1-3)] .
  obtain c where c: "computeChroma step minC maxC = Inr c" "\<bar>c - ?p step\<bar> \<le> 2 powi (- 47)"
    using computeChroma_near [OF assms(5,6) assms(1-3)] by blast
  have up: "?p step \<le> maxC"
    using parabola_le_max [of "maxC - minC" "step / 1000"] assms by simp
  have lo: "minC \<le> ?p step"
    using parabola_ge_zero [of "maxC - minC" "step / 1000"] assms by simp
  have c2: "\<exists>c. computeChroma step minC maxC = Inr c \<and> \<bar>c - ?p step\<bar> \<le> 2 powi (- 47)
              \<and> minC - 2 powi (- 47) \<le> c \<and> c \<le> maxC + 2 powi (- 47)"
  proof -
    have "minC - 2 powi (- 47) \<le> c" "c \<le> maxC + 2 powi (- 47)"
      using c(2) up lo by linarith+
    then show ?thesis using c by blast
  qed
  have c3: "computeChroma 0 minC maxC = Inr minC" "computeChroma 1000 minC maxC = Inr minC"
    using computeChroma_ends [OF assms(1-4)] by simp_all
  have "?p 500 = maxC"
    by (simp add: power2_eq_square field_simps)
  then have c4: "\<exists>c. computeChroma 500 minC maxC = Inr c \<and> \<bar>c - maxC\<bar> \<le> 2 powi (- 47)"
    using computeChroma_near [of 500 minC maxC] assms(1-3) by simp
  have r: "0 \<le> 1000 - step" "1000 - step \<le> 1000"
    using assms(5,6) by simp_all
  obtain c' where c': "computeChroma (1000 - step) minC maxC = Inr c'"
      "\<bar>c' - ?p (1000 - step)\<bar> \<le> 2 powi (- 47)"
    using computeChroma_near [OF r assms(1-3)] by blast
  have "?p (1000 - step) = ?p step"
    by (simp add: power2_eq_square field_simps)
  then have "\<bar>c - c'\<bar> \<le> 2 powi (- 47) + 2 powi (- 47)"
    using c(2) c'(2) by linarith
  also have "\<dots> = 2 powi (- 46)" by simp
  finally have c5: "\<exists>c c'. computeChroma step minC maxC = Inr c
                \<and> computeChroma (1000 - step) minC maxC = Inr c'
                \<and> \<bar>c - c'\<bar> \<le> 2 powi (- 46)"
    using c(1) c'(1) by blast
  show ?thesis using c1 c2 c3 c4 c5 by blast
qed

theorem computeChroma_binary64_witness:
  "computeChroma 0 (1 / 4) (3 / 4) = Inr (1 / 4)
   \<and> computeChroma 1000 (1 / 4) (3 / 4) = Inr (1 / 4)
   \<and> (\<exists>c. computeChroma 500 (1 / 4) (3 / 4) = Inr c \<and> \<bar>c - 3 / 4\<bar> \<le> 2 powi (- 47))
   \<and> (\<exists>c c'. computeChroma 250 (1 / 4) (3 / 4) = Inr c
          \<and> computeChroma (1000 - 250) (1 / 4) (3 / 4) = Inr c'
          \<and> \<bar>c - c'\<bar> \<le> 2 powi (- 46))"
proof -
  have h: "(0::real) \<le> 1 / 4" "(1 / 4 :: real) \<le> 3 / 4" "(3 / 4 :: real) \<le> 1"
    "(0::real) \<le> 250" "(250::real) \<le> 1000"
    by simp_all
  from computeChroma_binary64 [OF h(1-3) fl_quarter h(4,5)] show ?thesis
    by blast
qed

section \<open>The hue curve\<close>

text \<open>
  Claim C8 says that the hue returned by \<open>computeHue\<close> lies in \<open>[0, 360]\<close>. With the
  shift enabled, base hue 360 and step 0 the function returns 365: the shift is added
  without wrapping or clamping.
\<close>

theorem computeHue_range_counterexample:
  "computeHue 0 360 True = Inr 365 \<and> \<not> (365 \<le> (360::real))"
  by (simp add: computeHue_def)

text \<open>
  Claim C8, amended. For a step in \<open>[0, 1000]\<close> and a base hue in \<open>[0, 360]\<close>,
  \<open>computeHue\<close> returns the base hue unchanged when the shift is disabled or the base
  hue is 0, and \<open>baseHue + 5 * (1 - step / 1000)\<close> otherwise; the returned hue lies in
  \<open>[0, 365]\<close>.
\<close>

theorem computeHue_shift:
  assumes "0 \<le> step" "step \<le> 1000" "0 \<le> bHue" "bHue \<le> 360"
  shows "computeHue step bHue shift
           = Inr (if bHue = 0 \<or> \<not> shift then bHue else bHue + 5 * (1 - step / 1000))
         \<and> (\<exists>h. computeHue step bHue shift = Inr h \<and> 0 \<le> h \<and> h \<le> 365)"
  using assms by (auto simp add: computeHue_def Let_def)

theorem computeHue_shift_witness:
  "computeHue 500 200 True = Inr 202.5 \<and> computeHue 500 200 False = Inr 200
   \<and> computeHue 500 0 True = Inr 0"
  using computeHue_shift [of 500 200 True] computeHue_shift [of 500 200 False]
    computeHue_shift [of 500 0 True]
  by simp

section \<open>Bounds on the exponential\<close>

lemma exp_019_lower: "(1.20805::real) \<le> exp 0.19"
proof -
  have "1 + 0.19 + (0.19::real)\<^sup>2 / 2 \<le> exp 0.19"
    by (rule exp_lower_Taylor_quadratic) simp
  then show ?thesis by (simp add: power2_eq_square)
qed

lemma exp_019_upper: "exp 0.19 \<le> (1.20926::real)"
proof -
  obtain t :: real where t: "\<bar>t\<bar> \<le> \<bar>0.19\<bar>"
    and e: "exp (0.19::real) = (\<Sum>m<4. 0.19 ^ m / fact m) + exp t / fact 4 * 0.19 ^ 4"
    using Maclaurin_exp_le [of "0.19" 4] by blast
  have "exp t \<le> exp (0.19::real)"
    using t by simp
  also have "\<dots> \<le> 1 + 0.19 + 0.19\<^sup>2"
    by (rule exp_bound) simp_all
  finally have b: "exp t \<le> 1.23"
    by (simp add: power2_eq_square)
  have s: "(\<Sum>m<4. (0.19::real) ^ m / fact m) = 1 + 0.19 + 0.19\<^sup>2 / 2 + 0.19 ^ 3 / 6"
    by (simp add: eval_nat_numeral lessThan_Suc)
  have "exp t / fact 4 * (0.19::real) ^ 4 \<le> 1.23 / fact 4 * 0.19 ^ 4"
    using b by (intro mult_right_mono divide_right_mono) simp_all
  with e s have "exp (0.19::real) \<le> 1 + 0.19 + 0.19\<^sup>2 / 2 + 0.19 ^ 3 / 6 + 1.23 / fact 4 * 0.19 ^ 4"
    by linarith
  also have "\<dots> \<le> 1.20926"
    by (simp add: eval_nat_numeral)
  finally show ?thesis .
qed

lemma exp_152_ge: "(4.5::real) \<le> exp 1.52"
proof -
  have "exp (1.52::real) = exp (of_nat 8 * 0.19)"
    by simp
  also have "\<dots> = exp 0.19 ^ 8"
    by (rule exp_of_nat_mult)
  finally have e: "exp (1.52::real) = exp 0.19 ^ 8" .
  have "(1.20805::real) ^ 8 \<le> exp 0.19 ^ 8"
    by (rule power_mono [OF exp_019_lower]) simp
  moreover have "(4.5::real) \<le> 1.20805 ^ 8"
    by (simp add: power_divide)
  ultimately show ?thesis using e by linarith
qed

lemma exp_304_le: "exp 3.04 \<le> (21::real)"
proof -
  have "exp (3.04::real) = exp (of_nat 16 * 0.19)"
    by simp
  also have "\<dots> = exp 0.19 ^ 16"
    by (rule exp_of_nat_mult)
  finally have e: "exp (3.04::real) = exp 0.19 ^ 16" .
  have "exp (0.19::real) ^ 16 \<le> 1.20926 ^ 16"
    by (rule power_mono [OF exp_019_upper]) simp
  moreover have "(1.20926::real) ^ 16 \<le> 21"
    by (simp add: power_divide)
  ultimately show ?thesis using e by linarith
qed

section \<open>Lightness never fails\<close>

lemma scaleToContrast_range:
  assumes "0 \<le> step" "step \<le> 1000"
  shows "1 \<le> scaleToContrast step \<and> scaleToContrast step \<le> 21"
proof -
  have "0 \<le> 3.04 * (step / 1000)" and "3.04 * (step / 1000) \<le> 3.04"
    using assms by simp_all
  then have lo: "1 \<le> exp (3.04 * (step / 1000))"
    and "exp (3.04 * (step / 1000)) \<le> exp 3.04"
    by (simp_all only: exp_le_cancel_iff one_le_exp_iff)
  then have hi: "exp (3.04 * (step / 1000)) \<le> 21"
    using exp_304_le by (blast intro: order_trans)
  show ?thesis
    unfolding scaleToContrast_def Let_def using lo hi by blast
qed

lemma reverseWCAGContrast_white:
  assumes "1 \<le> c" "c \<le> 21"
  shows "reverseWCAGContrast c 1 = Some (1.05 / c - 0.05)"
    and "0 \<le> 1.05 / c - 0.05" and "1.05 / c - 0.05 \<le> 1"
proof -
  have pos: "0 < c" using assms by simp
  show lo: "0 \<le> 1.05 / c - 0.05"
    using assms pos by (simp add: field_simps)
  show hi: "1.05 / c - 0.05 \<le> 1"
    using assms pos by (simp add: field_simps)
  show "reverseWCAGContrast c 1 = Some (1.05 / c - 0.05)"
    using assms lo hi by (simp add: reverseWCAGContrast_def Let_def)
qed

lemma computeLightness_white:
  assumes "0 \<le> step" "step \<le> 1000"
  shows "computeLightness step = Inr (yToOkhslLightness (1.05 / scaleToContrast step - 0.05))"
  using scaleToContrast_range [OF assms]
  by (simp add: computeLightness_def Let_def reverseWCAGContrast_white(1))

text \<open>
  Claim C9. For every step in \<open>[0, 1000]\<close> (in particular every integer step that
  passed the validation of \<open>generateColorScale\<close>) the contrast \<open>scaleToContrast step\<close>
  lies in \<open>[1, 21]\<close>; with the reference luminance fixed at \<open>1\<close>,
  \<open>reverseWCAGContrast\<close> returns the number \<open>1.05 / contrast - 0.05\<close>, never \<open>false\<close>, and
  \<open>computeLightness\<close> returns a lightness and does not throw.
\<close>

theorem computeLightness_never_throws:
  assumes "0 \<le> step" "step \<le> 1000"
  shows "1 \<le> scaleToContrast step \<and> scaleToContrast step \<le> 21
         \<and> reverseWCAGContrast (scaleToContrast step) 1
               = Some (1.05 / scaleToContrast step - 0.05)
         \<and> reverseWCAGContrast (scaleToContrast step) 1 \<noteq> None
         \<and> computeLightness step
               = Inr (yToOkhslLightness (1.05 / scaleToContrast step - 0.05))
         \<and> (\<forall>e. computeLightness step \<noteq> Inl e)"
  using scaleToContrast_range [OF assms] computeLightness_white [OF assms]
  by (simp add: reverseWCAGContrast_white(1))

theorem computeLightness_never_throws_witness:
  "reverseWCAGContrast (scaleToContrast 1000) 1 \<noteq> None
   \<and> computeLightness 1000 \<noteq> Inl (TargetLuminanceProblem 1000)"
  using computeLightness_never_throws [of 1000] by auto

lemma scaleToContrast_diff:
  "scaleToContrast (b - a) = scaleToContrast b / scaleToContrast a"
  by (simp add: scaleToContrast_def Let_def exp_diff diff_divide_distrib right_diff_distrib)

lemma scaleToContrast_500:
  assumes "500 \<le> d"
  shows "4.5 \<le> scaleToContrast d"
proof -
  have "(1.52::real) \<le> 3.04 * (d / 1000)"
    using assms by simp
  then have "exp 1.52 \<le> exp (3.04 * (d / 1000))"
    by (simp only: exp_le_cancel_iff)
  then have "4.5 \<le> exp (3.04 * (d / 1000))"
    using exp_152_ge by (blast intro: order_trans)
  then show ?thesis
    unfolding scaleToContrast_def Let_def .
qed

lemma target_luminance_ratio:
  assumes "0 < ca" "0 < cb"
  shows "((1.05 / ca - 0.05) + 0.05) / ((1.05 / cb - 0.05) + 0.05) = cb / (ca :: real)"
  using assms by (simp add: field_simps)

section \<open>The perceptual lightness mapper\<close>

lemma root3_upper:
  fixes c u :: real
  assumes "0 \<le> u" "c \<le> u ^ 3"
  shows "root 3 c \<le> u"
proof -
  have "root 3 c \<le> root 3 (u ^ 3)"
    using assms(2) by simp
  also have "\<dots> = u"
    using assms(1) by (simp add: real_root_power_cancel)
  finally show ?thesis .
qed

lemma root3_lower:
  fixes c u :: real
  assumes "0 \<le> u" "u ^ 3 \<le> c"
  shows "u \<le> root 3 c"
proof -
  have "u = root 3 (u ^ 3)"
    using assms(1) by (simp add: real_root_power_cancel)
  also have "\<dots> \<le> root 3 c"
    using assms(2) by simp
  finally show ?thesis .
qed

lemma yToOklabLightness_factor:
  assumes "0 \<le> Y"
  shows "yToOklabLightness Y =
           (0.2104542553 * root 3 (1174871696747 / 1175000000000)
            + 0.793617785 * root 3 (32900885485343 / 32900000000000)
            - 0.0040720468 * root 3 (16457890176243 / 16450000000000)) * root 3 Y"
proof -
  have "yToOklabLightness Y =
          0.2104542553 * root 3 (1174871696747 / 1175000000000 * Y)
          + 0.793617785 * root 3 (32900885485343 / 32900000000000 * Y)
          - 0.0040720468 * root 3 (16457890176243 / 16450000000000 * Y)"
    using assms by (simp add: yToOklabLightness_def Let_def M1_def M2_def)
  then show ?thesis
    by (simp only: real_root_mult algebra_simps)
qed

lemma oklab_combination_bounds:
  fixes p q r :: real
  assumes "0.9 \<le> p" "p \<le> 0.999964" "1 \<le> q" "q \<le> 1.000009" "1.000159 \<le> r" "r \<le> 1.1"
  shows "0 \<le> 0.2104542553 * p + 0.793617785 * q - 0.0040720468 * r"
    and "0.2104542553 * p + 0.793617785 * q - 0.0040720468 * r \<le> 1"
  using assms by simp_all

lemma oklab_white_bounds:
  "0 \<le> 0.2104542553 * root 3 (1174871696747 / 1175000000000)
            + 0.793617785 * root 3 (32900885485343 / 32900000000000)
            - 0.0040720468 * root 3 (16457890176243 / 16450000000000 :: real)"
  "0.2104542553 * root 3 (1174871696747 / 1175000000000)
            + 0.793617785 * root 3 (32900885485343 / 32900000000000)
            - 0.0040720468 * root 3 (16457890176243 / 16450000000000 :: real) \<le> 1"
proof -
  have l1: "root 3 (1174871696747 / 1175000000000 :: real) \<le> 0.999964"
    by (rule root3_upper) (simp_all add: power_divide)
  have l0: "0.9 \<le> root 3 (1174871696747 / 1175000000000 :: real)"
    by (rule root3_lower) (simp_all add: power_divide)
  have m1: "root 3 (32900885485343 / 32900000000000 :: real) \<le> 1.000009"
    by (rule root3_upper) (simp_all add: power_divide)
  have m0: "1 \<le> root 3 (32900885485343 / 32900000000000 :: real)"
    by (rule root3_lower) simp_all
  have s1: "root 3 (16457890176243 / 16450000000000 :: real) \<le> 1.1"
    by (rule root3_upper) (simp_all add: power_divide)
  have s0: "1.000159 \<le> root 3 (16457890176243 / 16450000000000 :: real)"
    by (rule root3_lower) (simp_all add: power_divide)
  show "0 \<le> 0.2104542553 * root 3 (1174871696747 / 1175000000000)
            + 0.793617785 * root 3 (32900885485343 / 32900000000000)
            - 0.0040720468 * root 3 (16457890176243 / 16450000000000 :: real)"
    by (rule oklab_combination_bounds(1) [OF l0 l1 m0 m1 s0 s1])
  show "0.2104542553 * root 3 (1174871696747 / 1175000000000)
            + 0.793617785 * root 3 (32900885485343 / 32900000000000)
            - 0.0040720468 * root 3 (16457890176243 / 16450000000000 :: real) \<le> 1"
    by (rule oklab_combination_bounds(2) [OF l0 l1 m0 m1 s0 s1])
qed

lemma yToOklabLightness_range:
  assumes "0 \<le> Y" "Y \<le> 1"
  shows "0 \<le> yToOklabLightness Y" and "yToOklabLightness Y \<le> 1"
proof -
  let ?K = "0.2104542553 * root 3 (1174871696747 / 1175000000000)
            + 0.793617785 * root 3 (32900885485343 / 32900000000000)
            - 0.0040720468 * root 3 (16457890176243 / 16450000000000 :: real)"
  have r0: "0 \<le> root 3 Y"
    using assms(1) by (simp add: real_root_ge_zero)
  have "root 3 Y \<le> root 3 1"
    using assms(2) by simp
  then have r1: "root 3 Y \<le> 1"
    by simp
  have e: "yToOklabLightness Y = ?K * root 3 Y"
    using yToOklabLightness_factor [OF assms(1)] .
  show "0 \<le> yToOklabLightness Y"
    unfolding e using oklab_white_bounds(1) r0 by (rule mult_nonneg_nonneg)
  have "?K * root 3 Y \<le> 1 * 1"
    using oklab_white_bounds(2) r1 oklab_white_bounds(1) r0 by (intro mult_mono) simp_all
  then show "yToOklabLightness Y \<le> 1"
    unfolding e by simp
qed

lemma yToOklabLightness_clamped:
  assumes "Y \<le> 0"
  shows "yToOklabLightness Y = 0"
proof -
  have "1174871696747 * Y / 1175000000000 \<le> 0" "32900885485343 * Y / 32900000000000 \<le> 0"
    "16457890176243 * Y / 16450000000000 \<le> 0"
    using assms by (simp_all add: field_simps)
  then show ?thesis
    by (simp add: yToOklabLightness_def Let_def M1_def M2_def max_absorb1)
qed

lemma toe_closed:
  "toe L = ((1.206 / 1.03 * L - 0.206)
            + sqrt ((1.206 / 1.03 * L - 0.206)\<^sup>2 + 4 * 0.03 * (1.206 / 1.03) * L)) / 2"
  by (simp add: toe_def Let_def power2_eq_square)

lemma toe_range:
  assumes "0 \<le> L" "L \<le> 1"
  shows "0 \<le> toe L" and "toe L \<le> 1"
proof -
  let ?a = "1.206 / 1.03 * L - 0.206 :: real"
  let ?D = "?a\<^sup>2 + 4 * 0.03 * (1.206 / 1.03) * L"
  have "?a\<^sup>2 \<le> ?D"
    using assms(1) by simp
  then have "sqrt (?a\<^sup>2) \<le> sqrt ?D"
    by (simp only: real_sqrt_le_iff)
  then have "\<bar>?a\<bar> \<le> sqrt ?D"
    by simp
  then have "0 \<le> ?a + sqrt ?D"
    by linarith
  then show "0 \<le> toe L"
    unfolding toe_closed by simp
  have n: "0 \<le> 2 - ?a"
    using assms(2) by (simp add: field_simps)
  have "(2 - ?a)\<^sup>2 - ?D = 4.12 * (1.206 / 1.03) * (1 - L)"
    by (simp add: power2_eq_square algebra_simps)
  moreover have "0 \<le> 4.12 * (1.206 / 1.03) * (1 - L)"
    using assms(2) by simp
  ultimately have "?D \<le> (2 - ?a)\<^sup>2"
    by linarith
  then have "sqrt ?D \<le> 2 - ?a"
    using n by (intro real_le_lsqrt) simp_all
  then have "?a + sqrt ?D \<le> 2"
    by linarith
  then show "toe L \<le> 1"
    unfolding toe_closed by simp
qed

lemma toe_0: "toe 0 = 0"
  by (simp add: toe_def Let_def)

lemma toe_1: "toe 1 = 1"
proof -
  have "(2841849481 / 2652250000 :: real) = (53309 / 51500)\<^sup>2"
    by (simp add: power2_eq_square)
  then have "sqrt (2841849481 / 2652250000 :: real) = \<bar>53309 / 51500\<bar>"
    by (simp only: real_sqrt_abs)
  then have "sqrt (2841849481 / 2652250000 :: real) = 53309 / 51500"
    by simp
  then show ?thesis
    by (simp add: toe_def Let_def)
qed

text \<open>
  Claim C10. For every luminance \<open>Y\<close> in \<open>[0, 1]\<close> the Oklab lightness
  \<open>yToOklabLightness Y\<close> and the Okhsl lightness \<open>yToOkhslLightness Y\<close> both lie in
  \<open>[0, 1]\<close>; the toe function maps \<open>[0, 1]\<close> into \<open>[0, 1]\<close> with \<open>toe 0 = 0\<close> and
  \<open>toe 1 = 1\<close>. The cone responses are clamped at \<open>0\<close> before the cube root, so a
  luminance that is not positive gives Oklab lightness \<open>0\<close>.
\<close>

theorem yToOkhslLightness_range:
  assumes "0 \<le> Y" "Y \<le> 1"
  shows "0 \<le> yToOklabLightness Y \<and> yToOklabLightness Y \<le> 1
         \<and> 0 \<le> yToOkhslLightness Y \<and> yToOkhslLightness Y \<le> 1
         \<and> toe 0 = 0 \<and> toe 1 = 1
         \<and> (0 \<le> L \<and> L \<le> 1 \<longrightarrow> 0 \<le> toe L \<and> toe L \<le> 1)
         \<and> (Y' \<le> 0 \<longrightarrow> yToOklabLightness Y' = 0)"
proof -
  have a: "0 \<le> yToOklabLightness Y" "yToOklabLightness Y \<le> 1"
    using yToOklabLightness_range [OF assms] by simp_all
  have b: "0 \<le> yToOkhslLightness Y" "yToOkhslLightness Y \<le> 1"
    unfolding yToOkhslLightness_def using toe_range [OF a] by simp_all
  show ?thesis
    using a b toe_0 toe_1 toe_range [of L] yToOklabLightness_clamped [of Y'] by blast
qed

theorem yToOkhslLightness_range_witness:
  "yToOkhslLightness 0 = 0 \<and> yToOkhslLightness 1 \<le> 1 \<and> 0 \<le> yToOkhslLightness 0.5
   \<and> toe 0.5 \<le> 1 \<and> yToOklabLightness (- 1) = 0"
  using yToOkhslLightness_range [of 0 "0.5" 0] yToOkhslLightness_range [of 1 "0.5" "- 1"]
    yToOkhslLightness_range [of "0.5" "0.5" "- 1"]
  by (simp add: yToOkhslLightness_def)

section \<open>The generator\<close>

lemma computeHue_ok:
  assumes "0 \<le> step" "step \<le> 1000" "0 \<le> bHue" "bHue \<le> 360"
  shows "computeHue step bHue shift
           = Inr (if bHue = 0 \<or> \<not> shift then bHue else bHue + 5 * (1 - step / 1000))"
  using assms by (simp add: computeHue_def Let_def)

lemma computeChroma_ok:
  assumes "0 \<le> step" "step \<le> 1000" "0 \<le> minC" "minC \<le> maxC" "maxC \<le> 1"
  shows "\<exists>c. computeChroma step minC maxC = Inr c"
  using computeChroma_near [OF assms] by blast

lemma stepColor_ok:
  assumes "0 \<le> step" "step \<le> 1000" "0 \<le> bHue" "bHue \<le> 360"
    and "0 \<le> minC" "minC \<le> maxC" "maxC \<le> 1"
  shows "\<exists>h s. computeHue step bHue shift = Inr h \<and> computeChroma step minC maxC = Inr s
           \<and> stepColor conv bHue minC maxC shift step
               = Inr (conv (h, s, yToOkhslLightness (1.05 / scaleToContrast step - 0.05)))"
proof -
  obtain s where s: "computeChroma step minC maxC = Inr s"
    using computeChroma_ok assms by blast
  show ?thesis
    using s computeHue_ok [of step bHue shift] computeLightness_white [of step] assms
    by (simp add: stepColor_def)
qed

lemma reduce_scaleCallback:
  assumes "\<forall>s\<in>set xs. \<exists>c. stepColor conv bHue minC maxC shift s = Inr c"
  shows "\<exists>scale. reduce (scaleCallback conv bHue minC maxC shift) acc xs = Inr scale
           \<and> dom scale = dom acc \<union> set xs
           \<and> (\<forall>s\<in>set xs. stepColor conv bHue minC maxC shift s = Inr (the (scale s)))
           \<and> (\<forall>s. s \<notin> set xs \<longrightarrow> scale s = acc s)"
  using assms
proof (induction xs arbitrary: acc)
  case Nil
  then show ?case by simp
next
  case (Cons x xs)
  obtain c where c: "stepColor conv bHue minC maxC shift x = Inr c"
    using Cons.prems by auto
  have "\<forall>s\<in>set xs. \<exists>c. stepColor conv bHue minC maxC shift s = Inr c"
    using Cons.prems by simp
  from Cons.IH [OF this, of "acc(x \<mapsto> c)"]
  obtain scale where r: "reduce (scaleCallback conv bHue minC maxC shift) (acc(x \<mapsto> c)) xs = Inr scale"
    and d: "dom scale = dom (acc(x \<mapsto> c)) \<union> set xs"
    and v: "\<forall>s\<in>set xs. stepColor conv bHue minC maxC shift s = Inr (the (scale s))"
    and o: "\<forall>s. s \<notin> set xs \<longrightarrow> scale s = (acc(x \<mapsto> c)) s"
    by blast
  have 1: "reduce (scaleCallback conv bHue minC maxC shift) acc (x # xs) = Inr scale"
    using c r by (simp add: scaleCallback_def)
  have 2: "dom scale = dom acc \<union> set (x # xs)"
    using d by auto
  have 3: "\<forall>s\<in>set (x # xs). stepColor conv bHue minC maxC shift s = Inr (the (scale s))"
  proof
    fix s assume "s \<in> set (x # xs)"
    show "stepColor conv bHue minC maxC shift s = Inr (the (scale s))"
    proof (cases "s \<in> set xs")
      case True
      then show ?thesis using v by blast
    next
      case False
      then have "s = x" using \<open>s \<in> set (x # xs)\<close> by simp
      then show ?thesis using o False c by simp
    qed
  qed
  have 4: "\<forall>s. s \<notin> set (x # xs) \<longrightarrow> scale s = acc s"
    using o by simp
  show ?case using 1 2 3 4 by blast
qed

lemma generateColorScale_valid:
  assumes "0 \<le> baseHue opts" "baseHue opts \<le> 360"
    and "0 \<le> minChroma opts" "minChroma opts \<le> maxChroma opts" "maxChroma opts \<le> 1"
    and "\<forall>s\<in>set (steps opts). 0 \<le> s \<and> s \<le> 1000 \<and> isInteger s"
  shows "\<exists>scale. generateColorScale conv opts = Inr scale
           \<and> dom scale = set (steps opts)
           \<and> (\<forall>s\<in>set (steps opts).
                 stepColor conv (baseHue opts) (minChroma opts) (maxChroma opts)
                   (case enableBezoldBruckeShift opts of None \<Rightarrow> True | Some b \<Rightarrow> b) s
                 = Inr (the (scale s)))"
proof -
  let ?shift = "case enableBezoldBruckeShift opts of None \<Rightarrow> True | Some b \<Rightarrow> b"
  have ok: "\<forall>s\<in>set (steps opts).
              \<exists>c. stepColor conv (baseHue opts) (minChroma opts) (maxChroma opts) ?shift s = Inr c"
  proof
    fix s assume "s \<in> set (steps opts)"
    then have "0 \<le> s" "s \<le> 1000" using assms(6) by auto
    from stepColor_ok [OF this assms(1-5), of ?shift conv]
    show "\<exists>c. stepColor conv (baseHue opts) (minChroma opts) (maxChroma opts) ?shift s = Inr c"
      by blast
  qed
  have nx: "\<not> list_ex (\<lambda>step. step < 0 \<or> step > 1000 \<or> \<not> isInteger step) (steps opts)"
    using assms(6) by (auto simp add: list_ex_iff)
  have g: "generateColorScale conv opts
             = reduce (scaleCallback conv (baseHue opts) (minChroma opts) (maxChroma opts) ?shift)
                 Map.empty (steps opts)"
    using assms(1-5) nx by (simp add: generateColorScale_def Let_def)
  show ?thesis
    using reduce_scaleCallback [OF ok, of Map.empty] unfolding g by auto
qed

text \<open>
  Claim C4. For valid options \<open>generateColorScale\<close> returns a scale whose keys are
  exactly the requested steps, and the colour of a step \<open>s\<close> is \<open>stepColor\<close> at \<open>s\<close>, a
  function of \<open>s\<close>, \<open>baseHue\<close>, \<open>minChroma\<close>, \<open>maxChroma\<close> and the shift flag only. A
  second call that differs in the \<open>steps\<close> array alone assigns every common step the
  same colour.
\<close>

theorem generateColorScale_pointwise:
  assumes "0 \<le> baseHue opts" "baseHue opts \<le> 360"
    and "0 \<le> minChroma opts" "minChroma opts \<le> maxChroma opts" "maxChroma opts \<le> 1"
    and "\<forall>s\<in>set (steps opts). 0 \<le> s \<and> s \<le> 1000 \<and> isInteger s"
    and "\<forall>s\<in>set steps'. 0 \<le> s \<and> s \<le> 1000 \<and> isInteger s"
  shows "\<exists>scale scale'.
           generateColorScale conv opts = Inr scale
         \<and> dom scale = set (steps opts)
         \<and> (\<forall>s\<in>set (steps opts). \<exists>c.
               stepColor conv (baseHue opts) (minChroma opts) (maxChroma opts)
                 (case enableBezoldBruckeShift opts of None \<Rightarrow> True | Some b \<Rightarrow> b) s = Inr c
               \<and> scale s = Some c)
         \<and> generateColorScale conv (opts\<lparr>steps := steps'\<rparr>) = Inr scale'
         \<and> (\<forall>s\<in>set (steps opts) \<inter> set steps'. scale' s = scale s)"
proof -
  let ?shift = "case enableBezoldBruckeShift opts of None \<Rightarrow> True | Some b \<Rightarrow> b"
  let ?col = "stepColor conv (baseHue opts) (minChroma opts) (maxChroma opts) ?shift"
  obtain scale where g: "generateColorScale conv opts = Inr scale"
    and d: "dom scale = set (steps opts)"
    and v: "\<forall>s\<in>set (steps opts). ?col s = Inr (the (scale s))"
    using generateColorScale_valid [OF assms(1-6), of conv] by blast
  have "\<forall>s\<in>set (steps (opts\<lparr>steps := steps'\<rparr>)). 0 \<le> s \<and> s \<le> 1000 \<and> isInteger s"
    using assms(7) by simp
  from generateColorScale_valid [of "opts\<lparr>steps := steps'\<rparr>" conv, OF _ _ _ _ _ this]
  obtain scale' where g': "generateColorScale conv (opts\<lparr>steps := steps'\<rparr>) = Inr scale'"
    and d': "dom scale' = set steps'"
    and v': "\<forall>s\<in>set steps'. ?col s = Inr (the (scale' s))"
    using assms(1-5) by auto
  have p: "\<exists>c. ?col s = Inr c \<and> scale s = Some c" if "s \<in> set (steps opts)" for s
  proof -
    from that d obtain c where c: "scale s = Some c" by blast
    have "?col s = Inr (the (scale s))" using v that by blast
    then have "?col s = Inr c \<and> scale s = Some c" using c by simp
    then show ?thesis by (rule exI)
  qed
  have q: "scale' s = scale s" if "s \<in> set (steps opts) \<inter> set steps'" for s
  proof -
    from that d obtain c where c: "scale s = Some c" by blast
    from that d' obtain c' where c': "scale' s = Some c'" by blast
    have "?col s = Inr (the (scale s))" using v that by blast
    moreover have "?col s = Inr (the (scale' s))" using v' that by blast
    ultimately show ?thesis using c c' by simp
  qed
  show ?thesis using g d p g' q by blast
qed

theorem generateColorScale_pointwise_witness:
  "\<exists>scale scale'.
      generateColorScale (\<lambda>c. c)
        \<lparr>baseHue = 256, minChroma = 0.4, maxChroma = 0.967, steps = [0, 500, 1000],
         enableBezoldBruckeShift = Some False\<rparr> = Inr scale
    \<and> dom scale = {0, 500, 1000}
    \<and> generateColorScale (\<lambda>c. c)
        \<lparr>baseHue = 256, minChroma = 0.4, maxChroma = 0.967, steps = [500],
         enableBezoldBruckeShift = Some False\<rparr> = Inr scale'
    \<and> scale' 500 = scale 500"
  using generateColorScale_pointwise
    [of "\<lparr>baseHue = 256, minChroma = 0.4, maxChroma = 0.967, steps = [0, 500, 1000],
          enableBezoldBruckeShift = Some False\<rparr>" "[500]" "\<lambda>c. c"]
  by (simp add: isInteger_def) blast

lemma not_isInteger_half: "\<not> isInteger 500.5"
  unfolding isInteger_def by (simp del: of_int_floor_cancel)

text \<open>
  Claim C6. When \<open>baseHue\<close> is outside \<open>[0, 360]\<close>, a chroma bound is outside
  \<open>[0, 1]\<close>, \<open>minChroma > maxChroma\<close>, or some step is not an integer in \<open>[0, 1000]\<close>,
  \<open>generateColorScale\<close> throws the error of the first failing check and returns no
  scale, whatever the colour conversion is: the checks precede the per-step work.
  The instances \<open>baseHue = 361\<close>, \<open>minChroma = 0.6\<close> with \<open>maxChroma = 0.3\<close>, and
  \<open>steps = [500.5]\<close> follow.
\<close>

theorem generateColorScale_rejects:
  assumes "baseHue opts < 0 \<or> baseHue opts > 360
           \<or> minChroma opts < 0 \<or> minChroma opts > 1
           \<or> maxChroma opts < 0 \<or> maxChroma opts > 1
           \<or> minChroma opts > maxChroma opts
           \<or> (\<exists>s\<in>set (steps opts). s < 0 \<or> s > 1000 \<or> \<not> isInteger s)"
  shows "generateColorScale conv opts =
           (if baseHue opts < 0 \<or> baseHue opts > 360 then Inl BaseHueOutOfRange
            else if minChroma opts < 0 \<or> minChroma opts > 1
                    \<or> maxChroma opts < 0 \<or> maxChroma opts > 1 then Inl ChromaOutOfRange
            else if minChroma opts > maxChroma opts then Inl ChromaNotOrdered
            else Inl StepsNotValid)
         \<and> (\<exists>e. generateColorScale conv opts = Inl e)"
  using assms by (auto simp add: generateColorScale_def Let_def list_ex_iff)

theorem generateColorScale_rejects_witness:
  "generateColorScale (\<lambda>c. c)
     \<lparr>baseHue = 361, minChroma = 0, maxChroma = 1, steps = [0, 500, 1000],
      enableBezoldBruckeShift = None\<rparr> = Inl BaseHueOutOfRange
   \<and> generateColorScale (\<lambda>c. c)
     \<lparr>baseHue = 200, minChroma = 0.6, maxChroma = 0.3, steps = [0, 500, 1000],
      enableBezoldBruckeShift = None\<rparr> = Inl ChromaNotOrdered
   \<and> generateColorScale (\<lambda>c. c)
     \<lparr>baseHue = 200, minChroma = 0, maxChroma = 1, steps = [500.5],
      enableBezoldBruckeShift = None\<rparr> = Inl StepsNotValid"
  using generateColorScale_rejects
      [of "\<lparr>baseHue = 361, minChroma = 0, maxChroma = 1, steps = [0, 500, 1000],
            enableBezoldBruckeShift = None\<rparr>" "\<lambda>c. c"]
    generateColorScale_rejects
      [of "\<lparr>baseHue = 200, minChroma = 0.6, maxChroma = 0.3, steps = [0, 500, 1000],
            enableBezoldBruckeShift = None\<rparr>" "\<lambda>c. c"]
    generateColorScale_rejects
      [of "\<lparr>baseHue = 200, minChroma = 0, maxChroma = 1, steps = [500.5],
            enableBezoldBruckeShift = None\<rparr>" "\<lambda>c. c"]
    not_isInteger_half
  by simp

text \<open>
  The target luminances. Let the options be valid and \<open>a\<close>, \<open>b\<close> be requested steps
  with \<open>b - a \<ge> 500\<close>. The colours assigned to \<open>a\<close> and \<open>b\<close> are the conversions of Okhsl
  triples whose lightness is \<open>yToOkhslLightness\<close> of the luminances \<open>ya\<close> and \<open>yb\<close> solved
  by \<open>reverseWCAGContrast\<close>, and \<open>(ya + 0.05) / (yb + 0.05) = scaleToContrast (b - a)\<close> is
  at least \<open>4.5\<close>. Nothing is said here about the luminance of the converted sRGB
  colours: the conversion \<open>okhslToSrgb\<close> is a parameter.
\<close>

lemma target_luminance_contrast:
  assumes "0 \<le> baseHue opts" "baseHue opts \<le> 360"
    and "0 \<le> minChroma opts" "minChroma opts \<le> maxChroma opts" "maxChroma opts \<le> 1"
    and "\<forall>s\<in>set (steps opts). 0 \<le> s \<and> s \<le> 1000 \<and> isInteger s"
    and "a \<in> set (steps opts)" "b \<in> set (steps opts)" "500 \<le> b - a"
  shows "4.5 \<le> scaleToContrast (b - a)
         \<and> (\<exists>scale ha sa ya hb sb yb.
               generateColorScale conv opts = Inr scale
             \<and> reverseWCAGContrast (scaleToContrast a) 1 = Some ya
             \<and> reverseWCAGContrast (scaleToContrast b) 1 = Some yb
             \<and> scale a = Some (conv (ha, sa, yToOkhslLightness ya))
             \<and> scale b = Some (conv (hb, sb, yToOkhslLightness yb))
             \<and> 0 \<le> yb \<and> yb \<le> ya \<and> ya \<le> 1
             \<and> (ya + 0.05) / (yb + 0.05) = scaleToContrast (b - a)
             \<and> 4.5 \<le> (ya + 0.05) / (yb + 0.05))"
proof -
  let ?shift = "case enableBezoldBruckeShift opts of None \<Rightarrow> True | Some b \<Rightarrow> b"
  let ?col = "stepColor conv (baseHue opts) (minChroma opts) (maxChroma opts) ?shift"
  let ?ya = "1.05 / scaleToContrast a - 0.05"
  let ?yb = "1.05 / scaleToContrast b - 0.05"
  have ra: "0 \<le> a" "a \<le> 1000" and rb: "0 \<le> b" "b \<le> 1000"
    using assms(6-8) by auto
  have ca: "1 \<le> scaleToContrast a" "scaleToContrast a \<le> 21"
    using scaleToContrast_range [OF ra] by auto
  have cb: "1 \<le> scaleToContrast b" "scaleToContrast b \<le> 21"
    using scaleToContrast_range [OF rb] by auto
  have aa: "4.5 \<le> scaleToContrast (b - a)"
    using scaleToContrast_500 [OF assms(9)] .
  obtain scale where g: "generateColorScale conv opts = Inr scale"
    and d: "dom scale = set (steps opts)"
    and v: "\<forall>s\<in>set (steps opts). ?col s = Inr (the (scale s))"
    using generateColorScale_valid [OF assms(1-6), of conv] by blast
  obtain ha sa where
    "?col a = Inr (conv (ha, sa, yToOkhslLightness ?ya))"
    using stepColor_ok [OF ra assms(1-5), of ?shift conv] by blast
  moreover obtain xa where "scale a = Some xa"
    using d assms(7) by blast
  ultimately have sa: "scale a = Some (conv (ha, sa, yToOkhslLightness ?ya))"
    using v assms(7) by auto
  obtain hb sb where
    "?col b = Inr (conv (hb, sb, yToOkhslLightness ?yb))"
    using stepColor_ok [OF rb assms(1-5), of ?shift conv] by blast
  moreover obtain xb where "scale b = Some xb"
    using d assms(8) by blast
  ultimately have sb: "scale b = Some (conv (hb, sb, yToOkhslLightness ?yb))"
    using v assms(8) by auto
  have "(?ya + 0.05) / (?yb + 0.05) = scaleToContrast b / scaleToContrast a"
    using target_luminance_ratio [of "scaleToContrast a" "scaleToContrast b"] ca cb by simp
  then have ratio: "(?ya + 0.05) / (?yb + 0.05) = scaleToContrast (b - a)"
    by (simp only: scaleToContrast_diff)
  have wa: "reverseWCAGContrast (scaleToContrast a) 1 = Some ?ya"
    using reverseWCAGContrast_white(1) [OF ca] .
  have wb: "reverseWCAGContrast (scaleToContrast b) 1 = Some ?yb"
    using reverseWCAGContrast_white(1) [OF cb] .
  have y0: "0 \<le> ?yb"
    using reverseWCAGContrast_white(2) [OF cb] .
  have y1: "?ya \<le> 1"
    using reverseWCAGContrast_white(3) [OF ca] .
  have "a \<le> b"
    using assms(9) by simp
  then have "scaleToContrast a \<le> scaleToContrast b"
    by (simp add: scaleToContrast_def Let_def)
  then have "1.05 / scaleToContrast b \<le> 1.05 / scaleToContrast a"
    using ca(1) by (intro divide_left_mono) simp_all
  then have yy: "?yb \<le> ?ya"
    by simp
  have "4.5 \<le> (?ya + 0.05) / (?yb + 0.05)"
    using aa ratio by simp
  with aa g wa wb sa sb ratio y0 y1 yy show ?thesis by blast
qed

end
